theory Spec2Isabelle
  imports Complex_Main "HOL-Library.Multiset"
begin

section \<open>Configuration constants (bot.py, lines 31-35)\<close>

definition MAX_QUESTIONS_PER_FILE :: int where "MAX_QUESTIONS_PER_FILE = 50"
definition MIN_QUESTIONS :: int where "MIN_QUESTIONS = 5"
definition QUESTIONS_PER_BATCH :: int where "QUESTIONS_PER_BATCH = 5"
definition MAX_FILES_PER_HOUR :: int where "MAX_FILES_PER_HOUR = 2"
definition MAX_FILES_PER_DAY :: int where "MAX_FILES_PER_DAY = 5"

section \<open>Python values used by the bot\<close>

text \<open>
  Texts are modelled as ASCII strings: one \<^typ>\<open>char\<close> per Python character, so that
  \<open>len\<close> and slices count the same units. Characters outside ASCII are not modelled.
  The exceptions the handlers can raise are values of \<open>py_error\<close>; \<open>KeyError\<close> carries
  the missing key.
\<close>

datatype py_error = KeyError string | IndexError | ZeroDivisionError | ValueError

text \<open>\<open>xs[i]\<close> on a Python list: a negative index counts from the end.\<close>

definition py_index :: "'a list \<Rightarrow> int \<Rightarrow> py_error + 'a" where
  "py_index xs i =
     (let n = int (length xs); j = (if i < 0 then i + n else i)
      in if j < 0 then Inl IndexError
         else if n \<le> j then Inl IndexError
         else Inr (xs ! nat j))"

text \<open>\<open>xs[a:b]\<close>: both bounds are normalised (negative ones count from the end) and
  clipped to the list, and the slice is empty when they cross.\<close>

definition py_bound :: "nat \<Rightarrow> int \<Rightarrow> nat" where
  "py_bound n i = (if i < 0 then nat (max 0 (i + int n)) else min n (nat i))"

definition py_slice :: "'a list \<Rightarrow> int \<Rightarrow> int \<Rightarrow> 'a list" where
  "py_slice xs a b =
     (let lo = py_bound (length xs) a; hi = py_bound (length xs) b
      in take (hi - lo) (drop lo xs))"

text \<open>\<open>str.isspace\<close> and the regular expression class \<open>\w\<close>, on ASCII.\<close>

definition is_space :: "char \<Rightarrow> bool" where
  "is_space c = (let n = (of_char c :: nat) in (9 \<le> n \<and> n \<le> 13) \<or> (28 \<le> n \<and> n \<le> 32))"

definition is_word_char :: "char \<Rightarrow> bool" where
  "is_word_char c =
     (let n = (of_char c :: nat)
      in (48 \<le> n \<and> n \<le> 57) \<or> (65 \<le> n \<and> n \<le> 90) \<or> n = 95 \<or> (97 \<le> n \<and> n \<le> 122))"

text \<open>
  The maximal runs of characters that are not separators, in order, empty runs dropped.
  With whitespace as separator this is \<open>str.split()\<close>; with the complement of \<open>\w\<close> it is
  \<open>re.findall(r'\b\w+\b', s)\<close>, whose matches are the maximal runs of word characters.
\<close>

fun runs :: "(char \<Rightarrow> bool) \<Rightarrow> string \<Rightarrow> string \<Rightarrow> string list" where
  "runs sep cur [] = (if cur = [] then [] else [cur])"
| "runs sep cur (c # cs) =
     (if sep c then (if cur = [] then runs sep [] cs else cur # runs sep [] cs)
      else runs sep (cur @ [c]) cs)"

definition py_split :: "string \<Rightarrow> string list" where
  "py_split s = runs is_space [] s"

definition not_word_char :: "char \<Rightarrow> bool" where
  "not_word_char c = (if is_word_char c then False else True)"

definition findall_words :: "string \<Rightarrow> string list" where
  "findall_words s = runs not_word_char [] s"

fun py_join :: "string \<Rightarrow> string list \<Rightarrow> string" where
  "py_join sep [] = []"
| "py_join sep [w] = w"
| "py_join sep (w # v # ws) = w @ sep @ py_join sep (v # ws)"

definition py_strip :: "string \<Rightarrow> string" where
  "py_strip s = rev (dropWhile is_space (rev (dropWhile is_space s)))"

definition py_lower :: "string \<Rightarrow> string" where
  "py_lower s =
     map (\<lambda>c. let n = (of_char c :: nat) in if 65 \<le> n \<and> n \<le> 90 then char_of (n + 32) else c) s"

text \<open>\<open>s.split(sep)[-1]\<close>: what follows the last separator, the whole string without one.\<close>

definition last_segment :: "char \<Rightarrow> string \<Rightarrow> string" where
  "last_segment sep s = rev (takeWhile (\<lambda>c. c \<noteq> sep) (rev s))"

text \<open>\<open>s.split(sep)[0]\<close>: what precedes the first separator.\<close>

definition first_segment :: "char \<Rightarrow> string \<Rightarrow> string" where
  "first_segment sep s = takeWhile (\<lambda>c. c \<noteq> sep) s"

text \<open>
  \<open>re.sub(r'\?$', '', s)\<close>: \<open>$\<close> matches at the end of the string and just before a
  newline that ends it, so one question mark in either place is removed.
\<close>

definition sub_final_qmark :: "string \<Rightarrow> string" where
  "sub_final_qmark s =
     (case rev s of
        [] \<Rightarrow> s
      | c # r \<Rightarrow>
          if c = CHR ''?'' then rev r
          else if c = CHR 0x0A then
            (case r of [] \<Rightarrow> s | d # r' \<Rightarrow> if d = CHR ''?'' then rev r' @ [c] else s)
          else s)"

section \<open>Usage tracker\<close>

text \<open>
  \<open>datetime.now()\<close> is a reading of the wall clock, in microseconds; every reading the
  code takes is an argument of the function that takes it. \<open>timedelta(hours=1)\<close> and
  \<open>timedelta(hours=24)\<close> are the constants below.
\<close>

type_synonym time = int

definition one_hour :: int where "one_hour = 3600000000"
definition one_day :: int where "one_day = 24 * 3600000000"

record usage =
  file_count :: int
  last_upload :: "time option"
  daily_count :: int
  last_daily_reset :: time

type_synonym user_stats = "int \<rightharpoonup> usage"

text \<open>
  \<open>reset_user_stats\<close> (lines 290-304). \<open>t_new\<close> is the clock reading stored in a new
  record, \<open>now\<close> the one compared with the anchor of the daily window.
\<close>

definition reset_user_stats :: "user_stats \<Rightarrow> int \<Rightarrow> time \<Rightarrow> time \<Rightarrow> user_stats" where
  "reset_user_stats stats user_id t_new now =
     (let r = (case stats user_id of
                 None \<Rightarrow> \<lparr>file_count = 0, last_upload = None, daily_count = 0,
                           last_daily_reset = t_new\<rparr>
               | Some r0 \<Rightarrow> r0)
      in if now - last_daily_reset r > one_day
         then stats(user_id \<mapsto> r\<lparr>daily_count := 0, last_daily_reset := now\<rparr>)
         else stats(user_id \<mapsto> r))"

text \<open>\<open>check_limits\<close> (lines 306-323); it only reads the map.\<close>

definition check_limits :: "user_stats \<Rightarrow> int \<Rightarrow> time \<Rightarrow> bool" where
  "check_limits stats user_id now =
     (case stats user_id of
        None \<Rightarrow> True
      | Some user_data \<Rightarrow>
          if (case last_upload user_data of None \<Rightarrow> False | Some t \<Rightarrow> now - t < one_hour)
             \<and> file_count user_data \<ge> MAX_FILES_PER_HOUR
          then False
          else if daily_count user_data \<ge> MAX_FILES_PER_DAY then False
          else True)"

section \<open>Session data\<close>

text \<open>
  A generated question is the dictionary built at lines 85-89; an answer is the one
  appended at lines 257-260. \<open>context.user_data\<close> is a dictionary with at most the
  seven keys below: a key that is absent is \<open>None\<close>, and reading it raises \<open>KeyError\<close>.
\<close>

record quiz_question =
  question :: string
  options :: "string list"
  correct_idx :: int

record answer =
  question_idx :: int
  selected :: int

record user_data =
  file_text :: "string option"
  max_questions :: "int option"
  current_questions :: "quiz_question list option"
  user_answers :: "answer list option"
  score :: "int option"
  total_questions :: "int option"
  current_index :: "int option"

text \<open>The dictionary with no key: a user the bot has not seen, and the result of \<open>clear()\<close>.\<close>

definition no_user_data :: user_data where
  "no_user_data =
     \<lparr>file_text = None, max_questions = None, current_questions = None, user_answers = None,
      score = None, total_questions = None, current_index = None\<rparr>"

text \<open>
  What a handler sends through the messaging gateway, in order. The gateway calls
  themselves are taken to succeed.
\<close>

record poll =
  poll_question :: string
  poll_options :: "string list"
  poll_correct_option_id :: int

datatype message =
    Welcome
  | LimitExceeded
  | UnsupportedFileType
  | Downloading
  | Extracting
  | AskQuestionCount int int
  | ProcessingFailed
  | CountOutOfRange int int
  | NotANumber
  | Generating
  | SendPoll poll
  | OfferMore int int
  | FinalScore int int rat

section \<open>Document upload\<close>

text \<open>
  What the document extractor did with the downloaded file: it raised, or it returned a
  text (possibly empty). The four clock readings of one call of \<open>handle_document\<close> are,
  in the order they are taken: two in \<open>reset_user_stats\<close>, one in \<open>check_limits\<close>, and
  the one stored as \<open>last_upload\<close>.
\<close>

datatype extraction = ExtractionRaised | Extracted string

record document =
  file_name :: string
  extracted :: extraction
  now_new :: time
  now_reset :: time
  now_check :: time
  now_upload :: time

definition supported_file_type :: "string \<Rightarrow> bool" where
  "supported_file_type file_type = (file_type \<in> set [''pdf'', ''ppt'', ''pptx''])"

definition file_type_of :: "string \<Rightarrow> string" where
  "file_type_of name = py_lower (last_segment CHR ''.'' name)"

text \<open>Lines 137-138: the counters charged by an upload.\<close>

definition charge_upload :: "user_stats \<Rightarrow> int \<Rightarrow> time \<Rightarrow> py_error + user_stats" where
  "charge_upload stats user_id now =
     (case stats user_id of
        None \<Rightarrow> Inl (KeyError ''user_id'')
      | Some r \<Rightarrow> Inr (stats(user_id \<mapsto> r\<lparr>file_count := file_count r + 1, last_upload := Some now\<rparr>)))"

text \<open>Lines 158-159.\<close>

definition count_char :: "char \<Rightarrow> string \<Rightarrow> int" where
  "count_char c s = int (length (filter (\<lambda>d. d = c) s))"

definition num_pages_of :: "string \<Rightarrow> int" where
  "num_pages_of text_content = count_char (CHR 0x0C) text_content + 1"

definition max_questions_of :: "int \<Rightarrow> int" where
  "max_questions_of num_pages = min MAX_QUESTIONS_PER_FILE (max MIN_QUESTIONS (num_pages * 2))"

text \<open>
  \<open>handle_document\<close> (lines 114-181) returns the usage map, the user's session data,
  the messages sent and the exception that escapes the handler, if any. The \<open>try\<close> block
  turns a raising extractor and an empty text into the message \<open>ProcessingFailed\<close>.
\<close>

definition handle_document ::
  "user_stats \<Rightarrow> user_data \<Rightarrow> int \<Rightarrow> document
     \<Rightarrow> user_stats \<times> user_data \<times> message list \<times> py_error option" where
  "handle_document stats ud user_id doc =
     (let stats1 = reset_user_stats stats user_id (now_new doc) (now_reset doc)
      in if check_limits stats1 user_id (now_check doc) then
           (let file_type = file_type_of (file_name doc)
            in if supported_file_type file_type then
                 (case charge_upload stats1 user_id (now_upload doc) of
                    Inl e \<Rightarrow> (stats1, ud, [], Some e)
                  | Inr stats2 \<Rightarrow>
                      (case extracted doc of
                         ExtractionRaised \<Rightarrow>
                           (stats2, ud, [Downloading, Extracting, ProcessingFailed], None)
                       | Extracted text_content \<Rightarrow>
                           if text_content = [] then
                             (stats2, ud, [Downloading, Extracting, ProcessingFailed], None)
                           else
                             (let num_pages = num_pages_of text_content;
                                  max_q = max_questions_of num_pages
                              in (stats2,
                                  ud\<lparr>file_text := Some text_content,
                                     max_questions := Some max_q,
                                     current_questions := Some [],
                                     user_answers := Some [],
                                     score := Some 0\<rparr>,
                                  [Downloading, Extracting, AskQuestionCount num_pages max_q],
                                  None))))
               else (stats1, ud, [UnsupportedFileType], None))
         else (stats1, ud, [LimitExceeded], None))"

text \<open>\<open>start\<close> (lines 99-112).\<close>

definition start :: "user_stats \<Rightarrow> int \<Rightarrow> time \<Rightarrow> time \<Rightarrow> user_stats \<times> message list" where
  "start stats user_id t_new now = (reset_user_stats stats user_id t_new now, [Welcome])"

section \<open>Runs of the handlers that touch the usage map\<close>

text \<open>
  The process starts with an empty usage map and no session data for anyone. The two
  handlers that write the usage map are \<open>start\<close> and \<open>handle_document\<close>.
\<close>

datatype event = Start int time time | Document int document

type_synonym bot_state = "user_stats \<times> (int \<Rightarrow> user_data)"

definition initial_state :: bot_state where
  "initial_state = (Map.empty, \<lambda>_. no_user_data)"

fun step :: "bot_state \<Rightarrow> event \<Rightarrow> bot_state" where
  "step (stats, uds) (Start user_id t_new now) = (fst (start stats user_id t_new now), uds)"
| "step (stats, uds) (Document user_id doc) =
     (case handle_document stats (uds user_id) user_id doc of
        (stats', ud', _, _) \<Rightarrow> (stats', uds(user_id := ud')))"

fun run :: "bot_state \<Rightarrow> event list \<Rightarrow> bot_state" where
  "run st [] = st"
| "run st (e # es) = run (step st e) es"

text \<open>An upload is accepted when it passes the quota check and the file type check.\<close>

definition upload_accepted :: "user_stats \<Rightarrow> int \<Rightarrow> document \<Rightarrow> bool" where
  "upload_accepted stats user_id doc =
     (check_limits (reset_user_stats stats user_id (now_new doc) (now_reset doc)) user_id
        (now_check doc)
      \<and> supported_file_type (file_type_of (file_name doc)))"

fun event_accepted :: "bot_state \<Rightarrow> int \<Rightarrow> event \<Rightarrow> bool" where
  "event_accepted st u (Start user_id t_new now) = False"
| "event_accepted st u (Document user_id doc) =
     (if user_id = u then upload_accepted (fst st) u doc else False)"

text \<open>The number of uploads of user \<open>u\<close> that are accepted while the events run.\<close>

fun accepted_uploads :: "bot_state \<Rightarrow> int \<Rightarrow> event list \<Rightarrow> int" where
  "accepted_uploads st u [] = 0"
| "accepted_uploads st u (e # es) =
     (if event_accepted st u e then 1 else 0) + accepted_uploads (step st e) u es"

text \<open>Every one of the uploads, made in a row by one user, is accepted.\<close>

fun all_accepted :: "bot_state \<Rightarrow> int \<Rightarrow> document list \<Rightarrow> bool" where
  "all_accepted st u [] = True"
| "all_accepted st u (d # ds) =
     (if upload_accepted (fst st) u d then all_accepted (step st (Document u d)) u ds else False)"

text \<open>A user's \<open>file_count\<close>, zero for a user without a record.\<close>

definition file_count_of :: "user_stats \<Rightarrow> int \<Rightarrow> int" where
  "file_count_of stats u = (case stats u of None \<Rightarrow> 0 | Some r \<Rightarrow> file_count r)"

definition last_upload_of :: "user_stats \<Rightarrow> int \<Rightarrow> time option" where
  "last_upload_of stats u = (case stats u of None \<Rightarrow> None | Some r \<Rightarrow> last_upload r)"

definition daily_count_of :: "user_stats \<Rightarrow> int \<Rightarrow> int" where
  "daily_count_of stats u = (case stats u of None \<Rightarrow> 0 | Some r \<Rightarrow> daily_count r)"

text \<open>
  The time stored by the most recent accepted upload of user \<open>u\<close> while the events run,
  \<open>acc\<close> when there is none.
\<close>

fun last_accepted_upload :: "bot_state \<Rightarrow> int \<Rightarrow> time option \<Rightarrow> event list \<Rightarrow> time option" where
  "last_accepted_upload st u acc [] = acc"
| "last_accepted_upload st u acc (Start v t_new now # es) =
     last_accepted_upload (step st (Start v t_new now)) u acc es"
| "last_accepted_upload st u acc (Document v d # es) =
     last_accepted_upload (step st (Document v d)) u
       (if v = u \<and> upload_accepted (fst st) v d then Some (now_upload d) else acc) es"

text \<open>
  Example uploads: a PDF with some text, every clock reading of the call being \<open>t\<close>;
  and five of them by user 1, two hours apart.
\<close>

definition pdf_at :: "time \<Rightarrow> document" where
  "pdf_at t = \<lparr>file_name = ''notes.pdf'', extracted = Extracted ''text'',
              now_new = t, now_reset = t, now_check = t, now_upload = t\<rparr>"

definition five_uploads :: "event list" where
  "five_uploads = map (\<lambda>t. Document 1 (pdf_at t))
     [0, 7200000000, 14400000000, 21600000000, 28800000000]"

section \<open>Option synthesizer and question generator\<close>

text \<open>
  The state of Python's global random number generator is the sequence of raw draws it
  will produce; \<open>randbelow g n\<close> reduces the next draw to \<open>{0..<n}\<close> and returns the rest
  of the sequence. \<open>random.randint(a, b)\<close> is \<open>a + randbelow(b - a + 1)\<close>.
\<close>

type_synonym rng = "nat \<Rightarrow> nat"

definition randbelow :: "rng \<Rightarrow> nat \<Rightarrow> nat \<times> rng" where
  "randbelow g n = (g 0 mod n, \<lambda>i. g (Suc i))"

definition randint :: "rng \<Rightarrow> int \<Rightarrow> int \<Rightarrow> int \<times> rng" where
  "randint g a b = (case randbelow g (nat (b - a + 1)) of (r, g') \<Rightarrow> (a + int r, g'))"

text \<open>
  \<open>random.sample(population, k)\<close> raises \<open>ValueError\<close> when \<open>k\<close> exceeds the size of the
  population and otherwise selects \<open>k\<close> positions of it without replacement. The
  selection below is the library's pool scheme: pick a position of the pool, then move
  the last entry of the pool into the vacancy. (For populations of more than 21 entries
  the library draws positions and rejects repeated ones instead; the result is again the
  entries at \<open>k\<close> different positions.)
\<close>

fun sample_pool :: "rng \<Rightarrow> 'a list \<Rightarrow> nat \<Rightarrow> 'a list \<times> rng" where
  "sample_pool g pool 0 = ([], g)"
| "sample_pool g pool (Suc k) =
     (if pool = [] then ([], g)
      else (case randbelow g (length pool) of
              (j, g1) \<Rightarrow>
                (case sample_pool g1 (butlast (pool[j := last pool])) k of
                   (rest, g2) \<Rightarrow> (pool ! j # rest, g2))))"

definition random_sample :: "rng \<Rightarrow> 'a list \<Rightarrow> nat \<Rightarrow> py_error + 'a list \<times> rng" where
  "random_sample g population k =
     (if length population < k then Inl ValueError else Inr (sample_pool g population k))"

text \<open>\<open>generate_options\<close> (lines 92-97). \<open>option_words\<close> is the list sampled from.\<close>

definition fallback_words :: "string list" where
  "fallback_words = [''Anatomy'', ''Physiology'', ''Pathology'', ''Pharmacology'']"

definition option_words :: "string \<Rightarrow> string list" where
  "option_words context =
     (let words = filter (\<lambda>word. length word > 5) (findall_words context)
      in if length words < 4 then words @ fallback_words else words)"

definition generate_options :: "string \<Rightarrow> rng \<Rightarrow> py_error + string list \<times> rng" where
  "generate_options context g = random_sample g (option_words context) 4"

text \<open>
  The question generation model is outside the repository: \<open>qg i prompt\<close> is what its
  \<open>i\<close>-th invocation returns for \<open>prompt\<close>, \<open>None\<close> for an empty result. Exceptions
  raised by the model are not modelled.
\<close>

type_synonym qg_model = "nat \<Rightarrow> string \<Rightarrow> string option"

definition chunk_of :: "string \<Rightarrow> string" where
  "chunk_of context = py_join '' '' (take 300 (py_split context))"

definition prompt_of :: "string \<Rightarrow> string" where
  "prompt_of context = ''generate question: '' @ chunk_of context"

definition correct_option :: "string \<Rightarrow> string" where
  "correct_option q_text = take 100 (sub_final_qmark (first_segment CHR ''?'' q_text))"

text \<open>
  The loop of \<open>generate_questions\<close> (lines 71-89): \<open>i\<close> counts the invocations of the
  model made so far, \<open>k\<close> the iterations left. The result is the list of prompts sent
  to the model, and either the exception that ends the loop or the questions built and
  the state of the random number generator. The assignment \<open>options[correct_idx] = ...\<close>
  is a list update; \<open>generate_options\<close> returns four options and \<open>correct_idx\<close> is at most
  3, so the index is in range.
\<close>

fun questions_loop ::
  "qg_model \<Rightarrow> string \<Rightarrow> nat \<Rightarrow> nat \<Rightarrow> rng
     \<Rightarrow> string list \<times> (py_error + quiz_question list \<times> rng)" where
  "questions_loop qg context i 0 g = ([], Inr ([], g))"
| "questions_loop qg context i (Suc k) g =
     (let prompt = prompt_of context
      in case qg i prompt of
           None \<Rightarrow>
             (case questions_loop qg context (Suc i) k g of (ps, r) \<Rightarrow> (prompt # ps, r))
         | Some generated_text \<Rightarrow>
             (let q_text = py_strip generated_text
              in case generate_options context g of
                   Inl e \<Rightarrow> ([prompt], Inl e)
                 | Inr (opts, g1) \<Rightarrow>
                     (case randint g1 0 3 of
                        (idx, g2) \<Rightarrow>
                          (let q = \<lparr>question = q_text,
                                    options = opts[nat idx := correct_option q_text],
                                    correct_idx = idx\<rparr>
                           in case questions_loop qg context (Suc i) k g2 of
                                (ps, Inl e) \<Rightarrow> (prompt # ps, Inl e)
                              | (ps, Inr (qs, g3)) \<Rightarrow> (prompt # ps, Inr (q # qs, g3))))))"

definition generate_questions ::
  "qg_model \<Rightarrow> rng \<Rightarrow> string \<Rightarrow> int
     \<Rightarrow> string list \<times> (py_error + quiz_question list \<times> rng)" where
  "generate_questions qg g context num_questions =
     questions_loop qg context 0 (nat num_questions) g"

section \<open>Batch dispatcher and scorer\<close>

text \<open>
  A session handler returns the messages sent, the session data it leaves and the
  exception that escapes it, if any.
\<close>

type_synonym outcome = "message list \<times> user_data \<times> py_error option"

text \<open>
  The accuracy shown is \<open>round(correct/total*100, 1)\<close>, computed by Python on floats;
  here it is the exact quotient, rounded to one decimal with ties to even.
\<close>

definition py_round1 :: "rat \<Rightarrow> rat" where
  "py_round1 x =
     (let y = x * 10; f = \<lfloor>y\<rfloor>; d = y - of_int f;
          n = (if d < 1 / 2 then f else if 1 / 2 < d then f + 1
               else if even f then f else f + 1)
      in of_int n / 10)"

text \<open>The sum of lines 272-274: the answers whose choice is the question's correct one.\<close>

fun count_correct :: "user_data \<Rightarrow> answer list \<Rightarrow> py_error + int" where
  "count_correct ud [] = Inr 0"
| "count_correct ud (ans # rest) =
     (case current_questions ud of
        None \<Rightarrow> Inl (KeyError ''current_questions'')
      | Some qs \<Rightarrow>
          (case py_index qs (question_idx ans) of
             Inl e \<Rightarrow> Inl e
           | Inr q \<Rightarrow>
               (case count_correct ud rest of
                  Inl e \<Rightarrow> Inl e
                | Inr c \<Rightarrow> Inr ((if selected ans = correct_idx q then 1 else 0) + c))))"

text \<open>\<open>show_results\<close> (lines 269-288).\<close>

definition show_results :: "user_data \<Rightarrow> outcome" where
  "show_results ud =
     (case total_questions ud of
        None \<Rightarrow> ([], ud, Some (KeyError ''total_questions''))
      | Some total_n \<Rightarrow>
          (case user_answers ud of
             None \<Rightarrow> ([], ud, Some (KeyError ''user_answers''))
           | Some answers \<Rightarrow>
               (case count_correct ud answers of
                  Inl e \<Rightarrow> ([], ud, Some e)
                | Inr correct \<Rightarrow>
                    if total_n = 0 then ([], ud, Some ZeroDivisionError)
                    else ([FinalScore correct total_n
                             (py_round1 (of_int correct / of_int total_n * 100))],
                          no_user_data, None))))"

text \<open>The poll sent for a question (lines 222-227).\<close>

definition poll_of :: "quiz_question \<Rightarrow> poll" where
  "poll_of q =
     \<lparr>poll_question = take 300 (question q), poll_options = options q,
      poll_correct_option_id = correct_idx q\<rparr>"

text \<open>
  Lines 216-237 of \<open>send_question_batch\<close>: the polls of the batch, the session data with
  the new cursor, the new cursor and the number of questions of the session.
\<close>

definition emit_batch :: "user_data \<Rightarrow> py_error + poll list \<times> user_data \<times> int \<times> int" where
  "emit_batch ud =
     (case current_questions ud of
        None \<Rightarrow> Inl (KeyError ''current_questions'')
      | Some questions \<Rightarrow>
          (case current_index ud of
             None \<Rightarrow> Inl (KeyError ''current_index'')
           | Some start_idx \<Rightarrow>
               (let end_idx = start_idx + QUESTIONS_PER_BATCH;
                    batch = py_slice questions start_idx end_idx
                in Inr (map poll_of batch, ud\<lparr>current_index := Some end_idx\<rparr>, end_idx,
                        int (length questions)))))"

text \<open>\<open>send_question_batch\<close> (lines 214-246).\<close>

definition send_question_batch :: "user_data \<Rightarrow> outcome" where
  "send_question_batch ud =
     (case emit_batch ud of
        Inl e \<Rightarrow> ([], ud, Some e)
      | Inr (polls, ud1, end_idx, n) \<Rightarrow>
          if end_idx < n then (map SendPoll polls @ [OfferMore end_idx n], ud1, None)
          else (case show_results ud1 of
                  (msgs, ud2, err) \<Rightarrow> (map SendPoll polls @ msgs, ud2, err)))"

text \<open>\<open>next_batch\<close> (lines 262-267).\<close>

definition next_batch :: "user_data \<Rightarrow> outcome" where
  "next_batch ud = send_question_batch ud"

text \<open>\<open>handle_poll_answer\<close> (lines 248-260), for the option ids of the answer.\<close>

definition handle_poll_answer :: "user_data \<Rightarrow> int list \<Rightarrow> outcome" where
  "handle_poll_answer ud option_ids =
     (let answers = (case user_answers ud of None \<Rightarrow> [] | Some a \<Rightarrow> a);
          ud1 = ud\<lparr>user_answers := Some answers\<rparr>
      in case py_index option_ids 0 of
           Inl e \<Rightarrow> ([], ud1, Some e)
         | Inr sel \<Rightarrow>
             ([], ud1\<lparr>user_answers :=
                       Some (answers @ [\<lparr>question_idx = int (length answers), selected = sel\<rparr>])\<rparr>,
              None))"

text \<open>Lines 200-202: the session created for the generated questions.\<close>

definition store_questions :: "user_data \<Rightarrow> quiz_question list \<Rightarrow> user_data" where
  "store_questions ud questions =
     ud\<lparr>total_questions := Some (int (length questions)),
        current_questions := Some questions,
        current_index := Some 0\<rparr>"

text \<open>
  \<open>handle_question_count\<close> (lines 183-212). \<open>parsed\<close> is the result of \<open>int(...)\<close> on the
  text of the message, \<open>None\<close> when it raises \<open>ValueError\<close>. The \<open>except\<close> clause catches
  only \<open>ValueError\<close>; every other exception escapes.
\<close>

definition catch_value_error :: "outcome \<Rightarrow> outcome" where
  "catch_value_error r =
     (case r of
        (msgs, ud, err) \<Rightarrow>
          if err = Some ValueError then (msgs @ [NotANumber], ud, None) else (msgs, ud, err))"

definition handle_question_count :: "qg_model \<Rightarrow> rng \<Rightarrow> user_data \<Rightarrow> int option \<Rightarrow> outcome" where
  "handle_question_count qg g ud parsed =
     catch_value_error
       (case parsed of
          None \<Rightarrow> ([], ud, Some ValueError)
        | Some num_questions \<Rightarrow>
            (let max_q = (case max_questions ud of None \<Rightarrow> MIN_QUESTIONS | Some m \<Rightarrow> m)
             in if MIN_QUESTIONS \<le> num_questions \<and> num_questions \<le> max_q then
                  (case file_text ud of
                     None \<Rightarrow> ([], ud, Some (KeyError ''file_text''))
                   | Some text_content \<Rightarrow>
                       (case snd (generate_questions qg g text_content num_questions) of
                          Inl e \<Rightarrow> ([Generating], ud, Some e)
                        | Inr (questions, g') \<Rightarrow>
                            (case send_question_batch (store_questions ud questions) of
                               (msgs, ud', err) \<Rightarrow> (Generating # msgs, ud', err))))
                else ([CountOutOfRange MIN_QUESTIONS max_q], ud, None)))"

section \<open>Example inputs\<close>

text \<open>An accepted PDF upload whose extraction yields no text.\<close>

definition failing_pdf :: document where
  "failing_pdf = \<lparr>file_name = ''scan.pdf'', extracted = Extracted [],
                  now_new = 0, now_reset = 0, now_check = 0, now_upload = 0\<rparr>"

text \<open>
  The session data left by an upload that was processed; the session of a user for whom
  no question could be generated; a model that returns an empty result every time.
\<close>

definition uploaded_data :: "int \<Rightarrow> user_data" where
  "uploaded_data max_q =
     no_user_data\<lparr>file_text := Some ''text'', max_questions := Some max_q,
                  current_questions := Some [], user_answers := Some [], score := Some 0\<rparr>"

definition empty_session :: user_data where
  "empty_session = store_questions
     (uploaded_data 5) []"

definition silent_model :: qg_model where
  "silent_model i prompt = None"




text \<open>
  Texts, states of the random number generator and models of the examples. The last
  text has 300 times the word \<open>ab\<close> and then \<open>tail\<close>.
\<close>

definition cardiac_text :: string where
  "cardiac_text = ''cardiac muscle: ventricle, diastole and systole''"

definition bananas_text :: string where
  "bananas_text = ''bananas bananas bananas bananas''"

definition counting_rng :: rng where
  "counting_rng i = i"


definition aorta_model :: qg_model where
  "aorta_model i prompt = Some '' What is the aorta? ''"


definition words_then :: "string \<Rightarrow> string" where
  "words_then tail = concat (replicate 300 ''ab '') @ tail"

section \<open>Properties of the usage tracker\<close>

lemma file_count_of_reset [simp]:
  "file_count_of (reset_user_stats stats v t_new now) u = file_count_of stats u"
  by (simp add: file_count_of_def reset_user_stats_def Let_def split: option.splits)

lemma last_upload_of_reset [simp]:
  "last_upload_of (reset_user_stats stats v t_new now) u = last_upload_of stats u"
  by (simp add: last_upload_of_def reset_user_stats_def Let_def split: option.splits)

lemma reset_defined: "\<exists>r. reset_user_stats stats u t_new now u = Some r"
  by (simp add: reset_user_stats_def Let_def)

lemma check_limits_hourly:
  assumes "last_upload_of stats u = Some t" and "now - t < one_hour"
    and "MAX_FILES_PER_HOUR \<le> file_count_of stats u"
  shows "\<not> check_limits stats u now"
  using assms
  by (auto simp: check_limits_def last_upload_of_def file_count_of_def split: option.splits)

lemma handle_document_stats:
  "fst (handle_document stats ud u d) =
     (let stats1 = reset_user_stats stats u (now_new d) (now_reset d)
      in if upload_accepted stats u d
         then (case stats1 u of
                 None \<Rightarrow> stats1
               | Some r \<Rightarrow> stats1(u \<mapsto> r\<lparr>file_count := file_count r + 1,
                                          last_upload := Some (now_upload d)\<rparr>))
         else stats1)"
  by (simp add: handle_document_def upload_accepted_def charge_upload_def Let_def
      split: option.splits extraction.splits)

lemma file_count_of_handle_document:
  "file_count_of (fst (handle_document stats ud v d)) u =
     file_count_of stats u + (if v = u \<and> upload_accepted stats v d then 1 else 0)"
proof -
  obtain r where r: "reset_user_stats stats v (now_new d) (now_reset d) v = Some r"
    using reset_defined by blast
  have "file_count_of (reset_user_stats stats v (now_new d) (now_reset d)) u = file_count_of stats u"
    by simp
  then show ?thesis
    using r by (auto simp: handle_document_stats Let_def file_count_of_def)
qed

lemma last_upload_of_handle_document:
  "last_upload_of (fst (handle_document stats ud v d)) u =
     (if v = u \<and> upload_accepted stats v d then Some (now_upload d) else last_upload_of stats u)"
proof -
  obtain r where r: "reset_user_stats stats v (now_new d) (now_reset d) v = Some r"
    using reset_defined by blast
  have "last_upload_of (reset_user_stats stats v (now_new d) (now_reset d)) u = last_upload_of stats u"
    by simp
  then show ?thesis
    using r by (auto simp: handle_document_stats Let_def last_upload_of_def)
qed

lemma handle_document_denied:
  assumes "\<not> check_limits (reset_user_stats stats u (now_new d) (now_reset d)) u (now_check d)"
  shows "snd (snd (handle_document stats ud u d)) = ([LimitExceeded], None)"
  using assms by (simp add: handle_document_def Let_def)


lemma file_count_of_step:
  "file_count_of (fst (step st e)) u =
     file_count_of (fst st) u + (if event_accepted st u e then 1 else 0)"
proof (cases st)
  case (Pair stats uds)
  show ?thesis
  proof (cases e)
    case (Start v t_new now)
    then show ?thesis using Pair by (simp add: start_def)
  next
    case (Document v d)
    have "fst (step st e) = fst (handle_document stats (uds v) v d)"
      using Pair Document by (simp split: prod.splits)
    then show ?thesis
      using Pair Document by (auto simp: file_count_of_handle_document)
  qed
qed

lemma file_count_of_run:
  "file_count_of (fst (run st es)) u = file_count_of (fst st) u + accepted_uploads st u es"
  by (induction es arbitrary: st) (simp_all add: file_count_of_step)

lemma file_count_of_initial: "file_count_of (fst initial_state) u = 0"
  by (simp add: initial_state_def file_count_of_def)

lemma accepted_uploads_nonneg: "0 \<le> accepted_uploads st u es"
  by (induction es arbitrary: st) simp_all

lemma all_accepted_count:
  "all_accepted st u ds \<Longrightarrow> accepted_uploads st u (map (Document u) ds) = int (length ds)"
  by (induction ds arbitrary: st) (simp_all split: if_splits)

lemma last_upload_of_step_Document:
  "last_upload_of (fst (step st (Document v d))) u =
     (if v = u \<and> upload_accepted (fst st) v d then Some (now_upload d)
      else last_upload_of (fst st) u)"
proof (cases st)
  case (Pair stats uds)
  have "fst (step st (Document v d)) = fst (handle_document stats (uds v) v d)"
    using Pair by (simp split: prod.splits)
  then show ?thesis using Pair by (auto simp: last_upload_of_handle_document)
qed

lemma all_accepted_last_upload:
  "all_accepted st u ds \<Longrightarrow> ds \<noteq> [] \<Longrightarrow>
     last_upload_of (fst (run st (map (Document u) ds))) u = Some (now_upload (last ds))"
proof (induction ds arbitrary: st)
  case Nil
  then show ?case by simp
next
  case (Cons d ds)
  from Cons.prems have acc: "upload_accepted (fst st) u d"
    and rest: "all_accepted (step st (Document u d)) u ds"
    by (simp_all split: if_splits)
  show ?case
  proof (cases "ds = []")
    case True
    then show ?thesis using acc by (simp add: last_upload_of_step_Document)
  next
    case False
    then show ?thesis using Cons.IH [OF rest] by simp
  qed
qed

lemma last_upload_of_step_Start:
  "last_upload_of (fst (step st (Start v t_new now))) u = last_upload_of (fst st) u"
  by (cases st) (simp add: start_def)

lemma last_upload_of_run:
  "last_upload_of (fst (run st es)) u = last_accepted_upload st u (last_upload_of (fst st) u) es"
proof (induction es arbitrary: st)
  case Nil
  then show ?case by simp
next
  case (Cons e es)
  then show ?case
    by (cases e) (simp_all add: last_upload_of_step_Start last_upload_of_step_Document)
qed

lemma last_upload_of_initial: "last_upload_of (fst initial_state) u = None"
  by (simp add: initial_state_def last_upload_of_def)

lemma daily_count_of_reset_zero:
  "daily_count_of stats u = 0 \<Longrightarrow> daily_count_of (reset_user_stats stats v t_new now) u = 0"
  by (auto simp: daily_count_of_def reset_user_stats_def Let_def split: option.splits)

lemma daily_count_of_handle_document:
  "daily_count_of (fst (handle_document stats ud v d)) u
     = daily_count_of (reset_user_stats stats v (now_new d) (now_reset d)) u"
proof -
  obtain r where r: "reset_user_stats stats v (now_new d) (now_reset d) v = Some r"
    using reset_defined by blast
  then show ?thesis
    by (auto simp: handle_document_stats Let_def daily_count_of_def)
qed

lemma daily_count_of_step_zero:
  "daily_count_of (fst st) u = 0 \<Longrightarrow> daily_count_of (fst (step st e)) u = 0"
proof (cases st)
  case (Pair stats uds)
  assume z: "daily_count_of (fst st) u = 0"
  show ?thesis
  proof (cases e)
    case (Start v t_new now)
    then show ?thesis using Pair z by (simp add: start_def daily_count_of_reset_zero)
  next
    case (Document v d)
    have "fst (step st e) = fst (handle_document stats (uds v) v d)"
      using Pair Document by (simp split: prod.splits)
    then show ?thesis
      using Pair z by (simp add: daily_count_of_handle_document daily_count_of_reset_zero)
  qed
qed

lemma daily_count_of_run_zero:
  "daily_count_of (fst st) u = 0 \<Longrightarrow> daily_count_of (fst (run st es)) u = 0"
  by (induction es arbitrary: st) (simp_all add: daily_count_of_step_zero)

lemmas usage_eval =
  initial_state_def upload_accepted_def pdf_at_def reset_user_stats_def check_limits_def
  one_day_def one_hour_def MAX_FILES_PER_HOUR_def MAX_FILES_PER_DAY_def supported_file_type_def
  file_type_of_def py_lower_def last_segment_def handle_document_def charge_upload_def
  num_pages_of_def max_questions_of_def count_char_def Let_def start_def
  file_count_of_def last_upload_of_def daily_count_of_def


text \<open>
  Claim C8. When a user makes \<open>MAX_FILES_PER_HOUR\<close> or more uploads in a row that are all
  accepted, and the next upload is checked less than an hour after the time stored by the
  last of them (as it is when all of them fall within one hour), then \<open>check_limits\<close>
  returns false on that call and the handler answers with the quota message only.
\<close>

theorem hourly_cap_denies_exceeding_upload:
  assumes "all_accepted (stats, uds) u docs"
    and "MAX_FILES_PER_HOUR \<le> int (length docs)"
    and "0 \<le> file_count_of stats u"
    and "now_check d - now_upload (last docs) < one_hour"
  shows "\<not> check_limits
             (reset_user_stats (fst (run (stats, uds) (map (Document u) docs))) u
                (now_new d) (now_reset d)) u (now_check d)
         \<and> snd (snd (handle_document (fst (run (stats, uds) (map (Document u) docs)))
                       (snd (run (stats, uds) (map (Document u) docs)) u) u d))
             = ([LimitExceeded], None)"
proof -
  let ?st = "run (stats, uds) (map (Document u) docs)"
  let ?s1 = "reset_user_stats (fst ?st) u (now_new d) (now_reset d)"
  have ne: "docs \<noteq> []"
    using assms(2) by (auto simp: MAX_FILES_PER_HOUR_def)
  have "file_count_of (fst ?st) u = file_count_of stats u + int (length docs)"
    using all_accepted_count [OF assms(1)] by (simp add: file_count_of_run)
  then have cnt: "MAX_FILES_PER_HOUR \<le> file_count_of ?s1 u"
    using assms(2,3) by simp
  have "last_upload_of (fst ?st) u = Some (now_upload (last docs))"
    using all_accepted_last_upload [OF assms(1) ne] .
  then have lu: "last_upload_of ?s1 u = Some (now_upload (last docs))"
    by simp
  have denied: "\<not> check_limits ?s1 u (now_check d)"
    using check_limits_hourly [OF lu assms(4) cnt] .
  then show ?thesis
    using handle_document_denied [OF denied] by simp
qed


theorem hourly_cap_denies_exceeding_upload_witness:
  "all_accepted (Map.empty, \<lambda>_. no_user_data) 7 [pdf_at 0, pdf_at 600000000]
   \<and> MAX_FILES_PER_HOUR \<le> int (length [pdf_at 0, pdf_at 600000000])
   \<and> 0 \<le> file_count_of Map.empty 7
   \<and> now_check (pdf_at 1200000000) - now_upload (last [pdf_at 0, pdf_at 600000000]) < one_hour
   \<and> \<not> check_limits
         (reset_user_stats
            (fst (run (Map.empty, \<lambda>_. no_user_data) (map (Document 7) [pdf_at 0, pdf_at 600000000])))
            7 (now_new (pdf_at 1200000000)) (now_reset (pdf_at 1200000000)))
         7 (now_check (pdf_at 1200000000))"
proof -
  let ?docs = "[pdf_at 0, pdf_at 600000000]"
  have a: "all_accepted (Map.empty, \<lambda>_. no_user_data) 7 ?docs"
    by (simp add: usage_eval)
  have b: "MAX_FILES_PER_HOUR \<le> int (length ?docs)"
    by (simp add: MAX_FILES_PER_HOUR_def)
  have c: "0 \<le> file_count_of Map.empty 7"
    by (simp add: file_count_of_def)
  have d: "now_check (pdf_at 1200000000) - now_upload (last ?docs) < one_hour"
    by (simp add: pdf_at_def one_hour_def)
  show ?thesis
    using a b c d hourly_cap_denies_exceeding_upload [OF a b c d] by blast
qed

text \<open>
  Claim C9. No operation on the usage map lowers a user's \<open>file_count\<close>, and
  \<open>reset_user_stats\<close> leaves it as it is; so after any run of the handlers from the start
  of the process it is the number of that user's accepted uploads, and \<open>last_upload\<close> is
  the time of the most recent one. Hence once that number has reached
  \<open>MAX_FILES_PER_HOUR\<close>, an upload checked less than an hour after the most recent
  accepted one is denied and charged nothing, however the earlier uploads are spread in
  time.
\<close>

theorem file_count_is_lifetime_total:
  "file_count_of (fst (step st e)) u \<ge> file_count_of (fst st) u
   \<and> file_count_of (reset_user_stats stats v t_new now) u = file_count_of stats u
   \<and> file_count_of (fst (run initial_state es)) u = accepted_uploads initial_state u es
   \<and> last_upload_of (fst (run initial_state es)) u = last_accepted_upload initial_state u None es
   \<and> (MAX_FILES_PER_HOUR \<le> accepted_uploads initial_state u es
        \<and> last_accepted_upload initial_state u None es = Some t
        \<and> now_check d - t < one_hour
      \<longrightarrow> snd (snd (handle_document (fst (run initial_state es)) ud u d)) = ([LimitExceeded], None)
          \<and> file_count_of (fst (handle_document (fst (run initial_state es)) ud u d)) u
              = file_count_of (fst (run initial_state es)) u)"
proof -
  let ?s = "fst (run initial_state es)"
  have mono: "file_count_of (fst (step st e)) u \<ge> file_count_of (fst st) u"
    by (simp add: file_count_of_step)
  have total: "file_count_of ?s u = accepted_uploads initial_state u es"
    by (simp add: file_count_of_run file_count_of_initial)
  have lu: "last_upload_of ?s u = last_accepted_upload initial_state u None es"
    by (simp add: last_upload_of_run last_upload_of_initial)
  have deny: "snd (snd (handle_document ?s ud u d)) = ([LimitExceeded], None)
              \<and> file_count_of (fst (handle_document ?s ud u d)) u = file_count_of ?s u"
    if a: "MAX_FILES_PER_HOUR \<le> accepted_uploads initial_state u es"
      and b: "last_accepted_upload initial_state u None es = Some t"
      and c: "now_check d - t < one_hour"
  proof -
    let ?s1 = "reset_user_stats ?s u (now_new d) (now_reset d)"
    have h1: "last_upload_of ?s1 u = Some t" using lu b by simp
    have h2: "MAX_FILES_PER_HOUR \<le> file_count_of ?s1 u" using total a by simp
    have denied: "\<not> check_limits ?s1 u (now_check d)"
      using check_limits_hourly [OF h1 c h2] .
    then have "\<not> upload_accepted ?s u d" by (simp add: upload_accepted_def)
    then show ?thesis
      using handle_document_denied [OF denied] by (simp add: file_count_of_handle_document)
  qed
  show ?thesis
    using mono total lu deny by simp
qed

theorem file_count_is_lifetime_total_witness:
  "MAX_FILES_PER_HOUR \<le> accepted_uploads initial_state 1 [Document 1 (pdf_at 0), Document 1 (pdf_at 18000000000)]
   \<and> last_accepted_upload initial_state 1 None [Document 1 (pdf_at 0), Document 1 (pdf_at 18000000000)] = Some 18000000000
   \<and> now_check (pdf_at 19800000000) - 18000000000 < one_hour
   \<and> snd (snd (handle_document (fst (run initial_state [Document 1 (pdf_at 0), Document 1 (pdf_at 18000000000)]))
          no_user_data 1 (pdf_at 19800000000))) = ([LimitExceeded], None)"
proof -
  let ?es = "[Document 1 (pdf_at 0), Document 1 (pdf_at 18000000000)]"
  have a: "MAX_FILES_PER_HOUR \<le> accepted_uploads initial_state 1 ?es"
    by (simp add: usage_eval)
  have b: "last_accepted_upload initial_state 1 None ?es = Some 18000000000"
    by (simp add: usage_eval)
  have c: "now_check (pdf_at 19800000000) - 18000000000 < one_hour"
    by (simp add: pdf_at_def one_hour_def)
  show ?thesis
    using a b c file_count_is_lifetime_total
            [where u = 1 and es = ?es and t = 18000000000 and d = "pdf_at 19800000000"
               and ud = no_user_data]
    by blast
qed


text \<open>
  Claim C3. The daily counter stays at zero through every run of the handlers, because
  nothing increments it. Five uploads by one user, two hours apart, are all accepted,
  and so is the sixth, ten hours after the first: \<open>check_limits\<close> returns true although
  \<open>MAX_FILES_PER_DAY\<close> uploads were accepted in the same 24-hour window.
\<close>

theorem daily_cap_never_reached:
  "daily_count_of (fst (run initial_state es)) u = 0
   \<and> accepted_uploads initial_state 1 five_uploads = 5
   \<and> check_limits (reset_user_stats (fst (run initial_state five_uploads)) 1 36000000000 36000000000)
        1 36000000000
   \<and> upload_accepted (fst (run initial_state five_uploads)) 1 (pdf_at 36000000000)"
proof -
  have "daily_count_of (fst initial_state) u = 0"
    by (simp add: initial_state_def daily_count_of_def)
  then have g: "daily_count_of (fst (run initial_state es)) u = 0"
    by (rule daily_count_of_run_zero)
  have c: "accepted_uploads initial_state 1 five_uploads = 5"
    by (simp add: five_uploads_def usage_eval)
  have a: "upload_accepted (fst (run initial_state five_uploads)) 1 (pdf_at 36000000000)"
    by (simp add: five_uploads_def usage_eval)
  then have "check_limits (reset_user_stats (fst (run initial_state five_uploads)) 1 36000000000 36000000000)
        1 36000000000"
    by (simp add: upload_accepted_def pdf_at_def)
  then show ?thesis using g c a by simp
qed


lemma handle_document_failed_extraction:
  assumes "upload_accepted stats u d"
    and "extracted d = ExtractionRaised \<or> extracted d = Extracted []"
  shows "snd (handle_document stats ud u d) = (ud, [Downloading, Extracting, ProcessingFailed], None)"
proof -
  obtain r where r: "reset_user_stats stats u (now_new d) (now_reset d) u = Some r"
    using reset_defined by blast
  show ?thesis
    using assms r
    by (auto simp: handle_document_def upload_accepted_def charge_upload_def Let_def)
qed

text \<open>
  Claim C5, as the code has it. The counters are charged when the upload passes the quota
  check and the file type check, before the file is processed: \<open>file_count\<close> grows by one
  and \<open>last_upload\<close> is set whatever the extractor does afterwards, also when it raises
  or returns no text (the user is then told that processing failed and the session data
  is left as it was). An upload that fails one of the two checks leaves both counters as
  they were.
\<close>

theorem quota_charged_on_acceptance:
  "file_count_of (fst (handle_document stats ud u d)) u
     = file_count_of stats u + (if upload_accepted stats u d then 1 else 0)
   \<and> last_upload_of (fst (handle_document stats ud u d)) u
     = (if upload_accepted stats u d then Some (now_upload d) else last_upload_of stats u)
   \<and> (upload_accepted stats u d
        \<and> (extracted d = ExtractionRaised \<or> extracted d = Extracted [])
      \<longrightarrow> snd (handle_document stats ud u d)
            = (ud, [Downloading, Extracting, ProcessingFailed], None)
          \<and> file_count_of (fst (handle_document stats ud u d)) u = file_count_of stats u + 1
          \<and> last_upload_of (fst (handle_document stats ud u d)) u = Some (now_upload d))"
  using handle_document_failed_extraction [of stats u d ud]
  by (simp add: file_count_of_handle_document last_upload_of_handle_document)

theorem quota_charged_on_acceptance_witness:
  "upload_accepted Map.empty 1 failing_pdf
   \<and> (extracted failing_pdf = ExtractionRaised \<or> extracted failing_pdf = Extracted [])
   \<and> snd (handle_document Map.empty no_user_data 1 failing_pdf)
       = (no_user_data, [Downloading, Extracting, ProcessingFailed], None)
   \<and> file_count_of (fst (handle_document Map.empty no_user_data 1 failing_pdf)) 1
       = file_count_of Map.empty 1 + 1"
proof -
  have a: "upload_accepted Map.empty 1 failing_pdf"
    by (simp add: failing_pdf_def usage_eval)
  have b: "extracted failing_pdf = ExtractionRaised \<or> extracted failing_pdf = Extracted []"
    by (simp add: failing_pdf_def)
  show ?thesis
    using a b quota_charged_on_acceptance [of Map.empty no_user_data 1 failing_pdf]
    by simp
qed


text \<open>
  The claim as stated fails: a PDF whose text comes out empty, uploaded by a new user, is
  answered with the failure message and still leaves \<open>file_count = 1\<close> and
  \<open>last_upload\<close> set, where the record created by \<open>reset_user_stats\<close> had 0 and none.
\<close>

theorem failed_extraction_is_charged:
  "file_count_of (fst (handle_document Map.empty no_user_data 1 failing_pdf)) 1 = 1
   \<and> last_upload_of (fst (handle_document Map.empty no_user_data 1 failing_pdf)) 1 = Some 0
   \<and> snd (snd (handle_document Map.empty no_user_data 1 failing_pdf))
       = ([Downloading, Extracting, ProcessingFailed], None)
   \<and> file_count_of (reset_user_stats Map.empty 1 0 0) 1 = 0
   \<and> last_upload_of (reset_user_stats Map.empty 1 0 0) 1 = None"
  by (simp add: failing_pdf_def usage_eval)

section \<open>Properties of the batch dispatcher and the scorer\<close>

lemmas session_eval =
  next_batch_def send_question_batch_def emit_batch_def show_results_def store_questions_def
  no_user_data_def uploaded_data_def QUESTIONS_PER_BATCH_def py_slice_def py_bound_def Let_def







text \<open>
  Claim C4. For a user without a session \<open>next_batch\<close> sends nothing and ends with an
  unhandled \<open>KeyError\<close>, raised by the first read of the session data.
\<close>

theorem next_batch_without_session_raises:
  "next_batch no_user_data = ([], no_user_data, Some (KeyError ''current_questions''))"
  by (simp add: next_batch_def send_question_batch_def emit_batch_def no_user_data_def)

text \<open>
  Claim C2. For a session with \<open>total_questions = 0\<close> and no answers, \<open>show_results\<close>
  raises \<open>ZeroDivisionError\<close>: no score is reported and the session is not cleared. The
  same exception escapes \<open>send_question_batch\<close> for that session, and
  \<open>handle_question_count\<close> when the model returns no result for any attempt.
\<close>

theorem show_results_divides_by_zero:
  "total_questions empty_session = Some 0
   \<and> show_results empty_session = ([], empty_session, Some ZeroDivisionError)
   \<and> snd (snd (send_question_batch empty_session)) = Some ZeroDivisionError
   \<and> snd (snd (handle_question_count silent_model (\<lambda>i. 0)
        (uploaded_data 5) (Some 5)))
      = Some ZeroDivisionError"
  apply (intro conjI)
     apply (simp add: empty_session_def session_eval)
    apply (simp add: empty_session_def session_eval)
   apply (simp add: empty_session_def session_eval)
  apply (simp add: handle_question_count_def catch_value_error_def generate_questions_def
      silent_model_def MIN_QUESTIONS_def session_eval eval_nat_numeral)
  done







section \<open>Properties of the option synthesizer and the question generator\<close>

lemma mset_pool_vacancy:
  assumes "j < length pool"
  shows "add_mset (pool ! j) (mset (butlast (pool[j := last pool]))) = mset pool"
proof -
  from assms have ne: "pool \<noteq> []" by auto
  define n where "n = length pool - 1"
  have len: "length pool = Suc n" using ne by (simp add: n_def)
  have split: "pool = butlast pool @ [last pool]" using ne by simp
  show ?thesis
  proof (cases "j = n")
    case True
    then have "pool ! j = last pool" using ne by (simp add: last_conv_nth n_def)
    moreover have "pool[j := last pool] = pool"
      using True ne by (metis calculation list_update_id)
    ultimately show ?thesis using split
      by (metis mset.simps(2) mset_append union_mset_add_mset_right add.right_neutral mset.simps(1))
  next
    case False
    then have jn: "j < length (butlast pool)" using assms len by simp
    have "pool[j := last pool] = (butlast pool)[j := last pool] @ [last pool]"
      using jn split by (metis list_update_append1)
    then have bl: "butlast (pool[j := last pool]) = (butlast pool)[j := last pool]"
      by simp
    have nth: "butlast pool ! j = pool ! j" using jn by (simp add: nth_butlast)
    have mem: "pool ! j \<in># mset (butlast pool)" using jn nth by (metis nth_mem_mset)
    have "add_mset (pool ! j) (mset ((butlast pool)[j := last pool]))
            = add_mset (pool ! j) (add_mset (last pool) (mset (butlast pool) - {#pool ! j#}))"
      using jn nth by (simp add: mset_update)
    also have "\<dots> = add_mset (last pool) (mset (butlast pool))"
      using mem by simp
    also have "\<dots> = mset pool"
      using split by (metis mset.simps(2) mset_append union_mset_add_mset_right add.right_neutral mset.simps(1))
    finally show ?thesis using bl by simp
  qed
qed

lemma length_pool_vacancy: "pool \<noteq> [] \<Longrightarrow> length (butlast (pool[j := last pool])) = length pool - 1"
  by simp

lemma sample_pool_Suc:
  "pool \<noteq> [] \<Longrightarrow>
     fst (sample_pool g pool (Suc k)) =
       pool ! (g 0 mod length pool)
         # fst (sample_pool (\<lambda>i. g (Suc i)) (butlast (pool[g 0 mod length pool := last pool])) k)"
  by (simp add: randbelow_def split: prod.splits)

lemma sample_pool_length:
  "k \<le> length pool \<Longrightarrow> length (fst (sample_pool g pool k)) = k"
proof (induction k arbitrary: g pool)
  case 0
  then show ?case by simp
next
  case (Suc k)
  then have ne: "pool \<noteq> []" by auto
  have "k \<le> length (butlast (pool[g 0 mod length pool := last pool]))"
    using Suc.prems ne by simp
  from Suc.IH [OF this] show ?case
    by (simp add: sample_pool_Suc [OF ne] del: sample_pool.simps)
qed

lemma sample_pool_mset:
  "mset (fst (sample_pool g pool k)) \<subseteq># mset pool"
proof (induction k arbitrary: g pool)
  case 0
  then show ?case by simp
next
  case (Suc k)
  show ?case
  proof (cases "pool = []")
    case True
    then show ?thesis by simp
  next
    case False
    let ?j = "g 0 mod length pool"
    let ?pool' = "butlast (pool[?j := last pool])"
    have j: "?j < length pool" using False by simp
    have sub: "mset (fst (sample_pool (\<lambda>i. g (Suc i)) ?pool' k)) \<subseteq># mset ?pool'"
      by (rule Suc.IH)
    have "fst (sample_pool g pool (Suc k)) = pool ! ?j # fst (sample_pool (\<lambda>i. g (Suc i)) ?pool' k)"
      using False by (rule sample_pool_Suc)
    then have "mset (fst (sample_pool g pool (Suc k)))
                 = add_mset (pool ! ?j) (mset (fst (sample_pool (\<lambda>i. g (Suc i)) ?pool' k)))"
      by simp
    also have "\<dots> \<subseteq># add_mset (pool ! ?j) (mset ?pool')"
      using sub by simp
    also have "\<dots> = mset pool"
      using mset_pool_vacancy [OF j] .
    finally show ?thesis .
  qed
qed

lemma option_words_length: "4 \<le> length (option_words context)"
  by (simp add: option_words_def Let_def fallback_words_def)

lemma generate_options_result:
  "\<exists>opts g'. generate_options context g = Inr (opts, g') \<and> length opts = 4
      \<and> mset opts \<subseteq># mset (option_words context)"
proof -
  obtain opts g' where sp: "sample_pool g (option_words context) 4 = (opts, g')"
    by (cases "sample_pool g (option_words context) 4") auto
  have "length opts = 4"
    using sample_pool_length [OF option_words_length, where g = g and context1 = "context"] sp by simp
  moreover have "mset opts \<subseteq># mset (option_words context)"
    using sample_pool_mset [of g "option_words context" 4] sp by simp
  moreover have "generate_options context g = Inr (opts, g')"
    using option_words_length [of "context"] sp
    by (simp add: generate_options_def random_sample_def)
  ultimately show ?thesis by blast
qed

lemma mset_subset_distinct:
  assumes "mset ys \<subseteq># mset xs" and "distinct xs"
  shows "distinct ys"
proof -
  have le: "count (mset ys) a \<le> 1" for a
  proof -
    have "count (mset ys) a \<le> count (mset xs) a"
      using assms(1) by (rule mset_subset_eq_count)
    also have "\<dots> \<le> 1"
      using assms(2) by (simp add: distinct_count_atmost_1)
    finally show ?thesis .
  qed
  have "count (mset ys) a = (if a \<in> set ys then 1 else 0)" for a
  proof (cases "a \<in> set ys")
    case True
    then have "count (mset ys) a \<noteq> 0" by (simp add: count_mset_0_iff)
    with le [of a] have "count (mset ys) a = 1" by linarith
    then show ?thesis using True by simp
  next
    case False
    then show ?thesis by (simp add: count_mset_0_iff)
  qed
  then show ?thesis by (simp add: distinct_count_atmost_1)
qed


lemma questions_loop_prompts:
  "fst (questions_loop qg ctx i k g) = replicate k (prompt_of ctx)"
proof (induction k arbitrary: i g)
  case 0
  then show ?case by simp
next
  case (Suc k)
  show ?case
  proof (cases "qg i (prompt_of ctx)")
    case None
    obtain ps r where rec: "questions_loop qg ctx (Suc i) k g = (ps, r)"
      by (cases "questions_loop qg ctx (Suc i) k g") auto
    then have "ps = replicate k (prompt_of ctx)"
      using Suc.IH [of "Suc i" g] by simp
    then show ?thesis
      using None rec by (simp add: Let_def)
  next
    case (Some gen)
    obtain opts g1 where go: "generate_options ctx g = Inr (opts, g1)"
      using generate_options_result [of ctx g] by blast
    obtain idx g2 where ri: "randint g1 0 3 = (idx, g2)"
      by (cases "randint g1 0 3") auto
    obtain ps r where rec: "questions_loop qg ctx (Suc i) k g2 = (ps, r)"
      by (cases "questions_loop qg ctx (Suc i) k g2") auto
    then have "ps = replicate k (prompt_of ctx)"
      using Suc.IH [of "Suc i" g2] by simp
    then show ?thesis
      using Some go ri rec by (simp add: Let_def split: sum.splits)
  qed
qed






lemma cardiac_words:
  "option_words cardiac_text = [''cardiac'', ''muscle'', ''ventricle'', ''diastole'', ''systole'']"
  by code_simp

text \<open>
  Claim C6, as the code has it. For every text and every state of the random number
  generator \<open>generate_options\<close> returns exactly four strings, taken at four different
  positions of the list of the tokens longer than five characters (with their
  repetitions; the four fallback words are appended when the list has fewer than four
  entries): the strings form a sub-multiset of that list. They are pairwise distinct
  when the list has no repeated entry.
\<close>

theorem generate_options_samples_positions:
  "\<exists>opts g'. generate_options ctx g = Inr (opts, g') \<and> length opts = 4
      \<and> mset opts \<subseteq># mset (option_words ctx)
      \<and> (distinct (option_words ctx) \<longrightarrow> distinct opts)"
proof -
  obtain opts g' where r: "generate_options ctx g = Inr (opts, g')" "length opts = 4"
    "mset opts \<subseteq># mset (option_words ctx)"
    using generate_options_result [of ctx g] by blast
  have "distinct (option_words ctx) \<longrightarrow> distinct opts"
    using r(3) by (auto intro: mset_subset_distinct)
  then show ?thesis using r by blast
qed

theorem generate_options_samples_positions_witness:
  "distinct (option_words cardiac_text)
   \<and> (\<exists>opts g'. generate_options cardiac_text counting_rng = Inr (opts, g')
         \<and> length opts = 4 \<and> distinct opts)"
proof -
  have d: "distinct (option_words cardiac_text)"
    by (simp add: cardiac_words)
  show ?thesis
    using d generate_options_samples_positions [of cardiac_text counting_rng] by blast
qed

text \<open>
  The claim as stated fails: in a text that is four times the same long word the list
  sampled from holds that word four times, and the four options are equal.
\<close>

theorem generate_options_repeats_words:
  "map_sum id fst (generate_options bananas_text counting_rng)
     = Inr [''bananas'', ''bananas'', ''bananas'', ''bananas'']
   \<and> \<not> distinct [''bananas'', ''bananas'', ''bananas'', ''bananas'']"
  by code_simp






lemma words_then_split:
  "take 300 (py_split (words_then ''ventricle'')) = take 300 (py_split (words_then ''diastole''))"
  by code_simp

lemma words_then_options:
  "option_words (words_then ''ventricle'') \<noteq> option_words (words_then ''diastole'')"
  by code_simp

text \<open>
  Claim C10. For every text, count, model and state of the random number generator the
  prompts sent to the model are \<open>n\<close> copies of one prompt, built from the first 300
  whitespace-separated words of the text; hence two texts with the same first 300 words
  give the same prompts on every attempt, whatever the models answer. (The options come
  from the whole text: in the example the two texts differ in their option words.)
\<close>

theorem model_prompts_identical:
  "fst (generate_questions qg g ctx n)
     = replicate (nat n) (''generate question: '' @ py_join '' '' (take 300 (py_split ctx)))
   \<and> (take 300 (py_split ctx) = take 300 (py_split ctx') \<longrightarrow>
        fst (generate_questions qg g ctx n) = fst (generate_questions qg' g' ctx' n))"
proof -
  have p: "fst (generate_questions m r c n)
             = replicate (nat n) (''generate question: '' @ py_join '' '' (take 300 (py_split c)))"
    for m r c
    by (simp add: generate_questions_def questions_loop_prompts prompt_of_def chunk_of_def)
  show ?thesis
    by (simp add: p)
qed

theorem model_prompts_identical_witness:
  "take 300 (py_split (words_then ''ventricle'')) = take 300 (py_split (words_then ''diastole''))
   \<and> fst (generate_questions aorta_model counting_rng (words_then ''ventricle'') 3)
      = fst (generate_questions silent_model (\<lambda>i. 0) (words_then ''diastole'') 3)
   \<and> option_words (words_then ''ventricle'') \<noteq> option_words (words_then ''diastole'')"
  using words_then_split words_then_options
    model_prompts_identical [of aorta_model counting_rng "words_then ''ventricle''" 3
      "words_then ''diastole''" silent_model "\<lambda>i. 0"]
  by blast


end
